theory Spec2Isabelle
  imports Main "HOL-Library.Monad_Syntax"
begin

section \<open>Values handed to the model\<close>

text \<open>
  The pydantic model \<open>Packet\<close> of \<open>model.py\<close> is constructed from keyword arguments
  that are untyped Python values. The decoder hands in strings (every attribute of a
  pyshark layer is a string), \<open>read_packet\<close> adds the integer \<open>-1\<close> for absent ports,
  and a direct caller of \<open>Packet(...)\<close> may pass anything. The values considered here
  are \<open>None\<close>, booleans, integers, strings and bytes. Strings and bytes are ASCII text.
\<close>

datatype raw = RNone | RBool bool | RInt int | RStr string | RBytes string

text \<open>The two exception classes that a validator of \<open>model.py\<close> can end with.\<close>

datatype exn = ValueError | TypeError

section \<open>Python's \<open>int(v, 16)\<close>\<close>

text \<open>
  \<open>int(v, 16)\<close> on a string or on bytes: leading whitespace is skipped, then an optional
  sign, then an optional prefix \<open>0x\<close> or \<open>0X\<close> (which one underscore may follow), then
  hexadecimal digits in either case, where single underscores may separate digits, then
  trailing whitespace up to the end. Anything else is a \<open>ValueError\<close>.
\<close>

definition is_space :: "char \<Rightarrow> bool" where
  "is_space c = (let n = (of_char c :: nat) in (9 \<le> n \<and> n \<le> 13) \<or> n = 32)"

definition digit_value :: "char \<Rightarrow> nat option" where
  "digit_value c =
     (let n = (of_char c :: nat) in
      if 48 \<le> n \<and> n \<le> 57 then Some (n - 48)
      else if 97 \<le> n \<and> n \<le> 102 then Some (n - 87)
      else if 65 \<le> n \<and> n \<le> 70 then Some (n - 55)
      else None)"

definition is_digit16 :: "char \<Rightarrow> bool" where
  "is_digit16 c = (case digit_value c of None \<Rightarrow> False | Some d \<Rightarrow> True)"

definition literal_char :: "char \<Rightarrow> bool" where
  "literal_char c = (is_digit16 c \<or> c = CHR ''_'')"

fun strip_sign :: "string \<Rightarrow> bool \<times> string" where
  "strip_sign [] = (False, [])"
| "strip_sign (c # cs) =
     (if c = CHR ''-'' then (True, cs)
      else if c = CHR ''+'' then (False, cs)
      else (False, c # cs))"

fun strip_prefix16 :: "string \<Rightarrow> string" where
  "strip_prefix16 (a # b # cs) =
     (if a = CHR ''0'' \<and> (b = CHR ''x'' \<or> b = CHR ''X'')
      then (case cs of [] \<Rightarrow> [] | u # us \<Rightarrow> if u = CHR ''_'' then us else u # us)
      else a # b # cs)"
| "strip_prefix16 cs = cs"

fun underscores_ok :: "string \<Rightarrow> bool" where
  "underscores_ok [] = False"
| "underscores_ok [c] = (c \<noteq> CHR ''_'')"
| "underscores_ok (a # b # cs) =
     (if a = CHR ''_'' then False
      else if b = CHR ''_'' then underscores_ok cs
      else underscores_ok (b # cs))"

fun digits_value :: "nat \<Rightarrow> string \<Rightarrow> nat" where
  "digits_value acc [] = acc"
| "digits_value acc (c # cs) =
     (case digit_value c of
        None \<Rightarrow> digits_value acc cs
      | Some d \<Rightarrow> digits_value (16 * acc + d) cs)"

definition int_base16 :: "string \<Rightarrow> int option" where
  "int_base16 s =
     (let (neg, s1) = strip_sign (dropWhile is_space s);
          s2 = strip_prefix16 s1;
          body = takeWhile literal_char s2;
          rest = dropWhile literal_char s2
      in if underscores_ok body \<and> list_all is_space rest
         then Some (if neg then - int (digits_value 0 body) else int (digits_value 0 body))
         else None)"

section \<open>Base-16 literals, by the table\<close>

text \<open>
  The value of a hexadecimal digit string, written out independently of the parser:
  the digits by their table, the value by position, the most significant digit first.
\<close>

definition hex_table :: "(char \<times> nat) list" where
  "hex_table =
     [(CHR ''0'', 0), (CHR ''1'', 1), (CHR ''2'', 2), (CHR ''3'', 3), (CHR ''4'', 4),
      (CHR ''5'', 5), (CHR ''6'', 6), (CHR ''7'', 7), (CHR ''8'', 8), (CHR ''9'', 9),
      (CHR ''a'', 10), (CHR ''b'', 11), (CHR ''c'', 12), (CHR ''d'', 13), (CHR ''e'', 14),
      (CHR ''f'', 15), (CHR ''A'', 10), (CHR ''B'', 11), (CHR ''C'', 12), (CHR ''D'', 13),
      (CHR ''E'', 14), (CHR ''F'', 15)]"

definition hex_digit :: "char \<Rightarrow> nat option" where
  "hex_digit c = map_of hex_table c"

definition is_hex :: "char \<Rightarrow> bool" where
  "is_hex c = (case hex_digit c of None \<Rightarrow> False | Some d \<Rightarrow> True)"

definition is_hex_string :: "string \<Rightarrow> bool" where
  "is_hex_string s = (s \<noteq> [] \<and> list_all is_hex s)"

fun hex_value :: "string \<Rightarrow> nat" where
  "hex_value [] = 0"
| "hex_value (c # cs) =
     (case hex_digit c of None \<Rightarrow> 0 | Some d \<Rightarrow> d) * 16 ^ length cs + hex_value cs"



section \<open>The validators of \<open>model.py\<close>\<close>

text \<open>
  \<open>flags_rb_must_be_zero\<close> receives the value after pydantic has coerced it to an
  integer. Its \<open>raise ValidationError('flags_rb must be zero.')\<close> does not produce a
  validation report: the class \<open>ValidationError\<close> of pydantic 2 (the version that has
  \<open>model_dump_json\<close>, which \<open>read_packet\<close> calls) has no constructor that takes a
  message, so evaluating the operand of \<open>raise\<close> ends in a \<open>TypeError\<close>, and the
  message never becomes part of any exception.
\<close>

definition flags_rb_must_be_zero :: "int \<Rightarrow> exn + int" where
  "flags_rb_must_be_zero v = (if v \<noteq> 0 then Inl TypeError else Inr v)"

text \<open>
  \<open>set_dsfield_int16\<close> runs before any coercion (\<open>pre=True\<close>), on the value as passed.
  \<open>int(v, 16)\<close> takes a string, bytes or a bytearray; with an explicit base every other
  argument is a \<open>TypeError\<close>.
\<close>

definition set_dsfield_int16 :: "raw \<Rightarrow> exn + int" where
  "set_dsfield_int16 v =
     (case v of
        RStr s \<Rightarrow> (case int_base16 s of None \<Rightarrow> Inl ValueError | Some n \<Rightarrow> Inr n)
      | RBytes s \<Rightarrow> (case int_base16 s of None \<Rightarrow> Inl ValueError | Some n \<Rightarrow> Inr n)
      | _ \<Rightarrow> Inl TypeError)"

section \<open>Field validation by pydantic\<close>

text \<open>
  How pydantic coerces a value of another type to the annotated type (its lax mode) is
  the library's business and differs between its releases; it is a parameter of the
  model. A value that already has the annotated type is taken as it is. The type \<open>'f\<close>
  stands for Python's floats. \<open>float_json\<close> is what a float becomes on the way through
  \<open>model_dump_json\<close> and \<open>json.loads\<close>.
\<close>

datatype 'f json = JNull | JInt int | JFloat 'f | JStr string | JObject "(string \<times> 'f json) list"

record 'f coercion =
  lax_int :: "raw \<Rightarrow> int option"
  lax_float :: "raw \<Rightarrow> 'f option"
  lax_str :: "raw \<Rightarrow> string option"
  float_json :: "'f \<Rightarrow> 'f json"

definition validate_int :: "'f coercion \<Rightarrow> raw \<Rightarrow> int option" where
  "validate_int V v = (case v of RInt n \<Rightarrow> Some n | _ \<Rightarrow> lax_int V v)"

definition validate_str :: "'f coercion \<Rightarrow> raw \<Rightarrow> string option" where
  "validate_str V v = (case v of RStr s \<Rightarrow> Some s | _ \<Rightarrow> lax_str V v)"

definition validate_float :: "'f coercion \<Rightarrow> raw \<Rightarrow> 'f option" where
  "validate_float V v = lax_float V v"

text \<open>
  The outcome of one field. A failed coercion, and a \<open>ValueError\<close> raised by a
  validator, become an entry of pydantic's report and validation goes on with the next
  field. Any other exception raised by a validator leaves \<open>Packet(...)\<close> at once.
\<close>

datatype 'a outcome = Valid 'a | Invalid | Escaped exn

definition from_validator :: "exn + 'a \<Rightarrow> 'a outcome" where
  "from_validator r =
     (case r of Inr a \<Rightarrow> Valid a | Inl ValueError \<Rightarrow> Invalid | Inl e \<Rightarrow> Escaped e)"

definition coerced :: "'a option \<Rightarrow> 'a outcome" where
  "coerced r = (case r of None \<Rightarrow> Invalid | Some a \<Rightarrow> Valid a)"

definition int_field :: "'f coercion \<Rightarrow> raw \<Rightarrow> int outcome" where
  "int_field V v = coerced (validate_int V v)"

definition str_field :: "'f coercion \<Rightarrow> raw \<Rightarrow> string outcome" where
  "str_field V v = coerced (validate_str V v)"

definition float_field :: "'f coercion \<Rightarrow> raw \<Rightarrow> 'f outcome" where
  "float_field V v = coerced (validate_float V v)"

text \<open>\<open>flags_rb\<close>: coercion to \<open>int\<close> first, then the validator.\<close>

definition flags_rb_field :: "'f coercion \<Rightarrow> raw \<Rightarrow> int outcome" where
  "flags_rb_field V v =
     (case validate_int V v of
        None \<Rightarrow> Invalid
      | Some n \<Rightarrow> from_validator (flags_rb_must_be_zero n))"

text \<open>\<open>dsfield\<close>: the validator first, then coercion of what it returned to \<open>int\<close>.\<close>

definition dsfield_field :: "'f coercion \<Rightarrow> raw \<Rightarrow> int outcome" where
  "dsfield_field V v =
     (case from_validator (set_dsfield_int16 v) of
        Valid n \<Rightarrow> int_field V (RInt n)
      | Invalid \<Rightarrow> Invalid
      | Escaped e \<Rightarrow> Escaped e)"

datatype status = Passed | Failed | Raised exn

definition status_of :: "'a outcome \<Rightarrow> status" where
  "status_of r = (case r of Valid a \<Rightarrow> Passed | Invalid \<Rightarrow> Failed | Escaped e \<Rightarrow> Raised e)"

definition value_of :: "'a outcome \<Rightarrow> 'a option" where
  "value_of r = (case r of Valid a \<Rightarrow> Some a | Invalid \<Rightarrow> None | Escaped e \<Rightarrow> None)"

text \<open>
  What \<open>Packet(...)\<close> can raise: pydantic's \<open>ValidationError\<close>, which lists the fields
  that failed (in declaration order) each with the input it was given, or the exception
  that escaped from a validator.
\<close>

datatype error = ValidationError "(string \<times> raw) list" | Uncaught exn

text \<open>
  The fields are validated one after the other, in the order of their declaration.
  \<open>errs\<close> holds the entries of the report so far, the latest first.
\<close>

fun report :: "(string \<times> raw \<times> status) list \<Rightarrow> (string \<times> raw) list \<Rightarrow> error option" where
  "report [] errs = (if errs = [] then None else Some (ValidationError (rev errs)))"
| "report ((name, v, Passed) # fs) errs = report fs errs"
| "report ((name, v, Failed) # fs) errs = report fs ((name, v) # errs)"
| "report ((name, v, Raised e) # fs) errs = Some (Uncaught e)"

section \<open>The model \<open>Packet\<close>\<close>

record 'f Packet =
  dsfield_dscp :: int
  hdr_len :: int
  dsfield :: int
  dsfield_ecn :: int
  len :: int
  proto :: int
  flags_df :: int
  flags_mf :: int
  flags_rb :: int
  frag_offset :: int
  ttl :: int
  src :: string
  dst :: string
  srcport :: int
  dstport :: int
  sniff_timestamp :: 'f

text \<open>The keyword arguments of \<open>Packet(...)\<close>, as passed.\<close>

record kwargs =
  kw_dsfield_dscp :: raw
  kw_hdr_len :: raw
  kw_dsfield :: raw
  kw_dsfield_ecn :: raw
  kw_len :: raw
  kw_proto :: raw
  kw_flags_df :: raw
  kw_flags_mf :: raw
  kw_flags_rb :: raw
  kw_frag_offset :: raw
  kw_ttl :: raw
  kw_src :: raw
  kw_dst :: raw
  kw_srcport :: raw
  kw_dstport :: raw
  kw_sniff_timestamp :: raw

definition field_statuses :: "'f coercion \<Rightarrow> kwargs \<Rightarrow> (string \<times> raw \<times> status) list" where
  "field_statuses V kw =
     [(''dsfield_dscp'', kw_dsfield_dscp kw, status_of (int_field V (kw_dsfield_dscp kw))),
      (''hdr_len'', kw_hdr_len kw, status_of (int_field V (kw_hdr_len kw))),
      (''dsfield'', kw_dsfield kw, status_of (dsfield_field V (kw_dsfield kw))),
      (''dsfield_ecn'', kw_dsfield_ecn kw, status_of (int_field V (kw_dsfield_ecn kw))),
      (''len'', kw_len kw, status_of (int_field V (kw_len kw))),
      (''proto'', kw_proto kw, status_of (int_field V (kw_proto kw))),
      (''flags_df'', kw_flags_df kw, status_of (int_field V (kw_flags_df kw))),
      (''flags_mf'', kw_flags_mf kw, status_of (int_field V (kw_flags_mf kw))),
      (''flags_rb'', kw_flags_rb kw, status_of (flags_rb_field V (kw_flags_rb kw))),
      (''frag_offset'', kw_frag_offset kw, status_of (int_field V (kw_frag_offset kw))),
      (''ttl'', kw_ttl kw, status_of (int_field V (kw_ttl kw))),
      (''src'', kw_src kw, status_of (str_field V (kw_src kw))),
      (''dst'', kw_dst kw, status_of (str_field V (kw_dst kw))),
      (''srcport'', kw_srcport kw, status_of (int_field V (kw_srcport kw))),
      (''dstport'', kw_dstport kw, status_of (int_field V (kw_dstport kw))),
      (''sniff_timestamp'', kw_sniff_timestamp kw,
         status_of (float_field V (kw_sniff_timestamp kw)))]"

definition validated :: "'f coercion \<Rightarrow> kwargs \<Rightarrow> 'f Packet option" where
  "validated V kw =
     do {
       a1 \<leftarrow> value_of (int_field V (kw_dsfield_dscp kw));
       a2 \<leftarrow> value_of (int_field V (kw_hdr_len kw));
       a3 \<leftarrow> value_of (dsfield_field V (kw_dsfield kw));
       a4 \<leftarrow> value_of (int_field V (kw_dsfield_ecn kw));
       a5 \<leftarrow> value_of (int_field V (kw_len kw));
       a6 \<leftarrow> value_of (int_field V (kw_proto kw));
       a7 \<leftarrow> value_of (int_field V (kw_flags_df kw));
       a8 \<leftarrow> value_of (int_field V (kw_flags_mf kw));
       a9 \<leftarrow> value_of (flags_rb_field V (kw_flags_rb kw));
       a10 \<leftarrow> value_of (int_field V (kw_frag_offset kw));
       a11 \<leftarrow> value_of (int_field V (kw_ttl kw));
       a12 \<leftarrow> value_of (str_field V (kw_src kw));
       a13 \<leftarrow> value_of (str_field V (kw_dst kw));
       a14 \<leftarrow> value_of (int_field V (kw_srcport kw));
       a15 \<leftarrow> value_of (int_field V (kw_dstport kw));
       a16 \<leftarrow> value_of (float_field V (kw_sniff_timestamp kw));
       Some \<lparr>dsfield_dscp = a1, hdr_len = a2, dsfield = a3, dsfield_ecn = a4, len = a5,
             proto = a6, flags_df = a7, flags_mf = a8, flags_rb = a9, frag_offset = a10,
             ttl = a11, src = a12, dst = a13, srcport = a14, dstport = a15,
             sniff_timestamp = a16\<rparr>
     }"

text \<open>
  \<open>Packet(...)\<close>: the exception that ends validation, or else the instance. The report
  is empty only when every field is valid, so the last branch is never taken
  (lemma \<open>Packet_new_report_nonempty\<close>).
\<close>

definition Packet_new :: "'f coercion \<Rightarrow> kwargs \<Rightarrow> error + 'f Packet" where
  "Packet_new V kw =
     (case report (field_statuses V kw) [] of
        Some e \<Rightarrow> Inl e
      | None \<Rightarrow>
          (case validated V kw of
             Some p \<Rightarrow> Inr p
           | None \<Rightarrow> Inl (ValidationError [])))"

section \<open>The entry written for a record\<close>

text \<open>
  \<open>json.loads(pckt.model_dump_json())\<close>: the object that \<open>read_packet\<close> hands to the
  writer. The members come in the order of the fields' declaration.
\<close>

definition model_dump :: "'f coercion \<Rightarrow> 'f Packet \<Rightarrow> 'f json" where
  "model_dump V p =
     JObject
       [(''dsfield_dscp'', JInt (dsfield_dscp p)),
        (''hdr_len'', JInt (hdr_len p)),
        (''dsfield'', JInt (dsfield p)),
        (''dsfield_ecn'', JInt (dsfield_ecn p)),
        (''len'', JInt (len p)),
        (''proto'', JInt (proto p)),
        (''flags_df'', JInt (flags_df p)),
        (''flags_mf'', JInt (flags_mf p)),
        (''flags_rb'', JInt (flags_rb p)),
        (''frag_offset'', JInt (frag_offset p)),
        (''ttl'', JInt (ttl p)),
        (''src'', JStr (src p)),
        (''dst'', JStr (dst p)),
        (''srcport'', JInt (srcport p)),
        (''dstport'', JInt (dstport p)),
        (''sniff_timestamp'', float_json V (sniff_timestamp p))]"

definition keys :: "'f json \<Rightarrow> string list" where
  "keys j = (case j of JObject kvs \<Rightarrow> map fst kvs | _ \<Rightarrow> [])"

definition member :: "'f json \<Rightarrow> string \<Rightarrow> 'f json option" where
  "member j k = (case j of JObject kvs \<Rightarrow> map_of kvs k | _ \<Rightarrow> None)"

definition is_object :: "'f json \<Rightarrow> bool" where
  "is_object j = (case j of JObject kvs \<Rightarrow> True | _ \<Rightarrow> False)"

section \<open>The log file\<close>

text \<open>
  A \<open>.jsonl\<close> file holds one JSON value per line. \<open>jsonlines.open(path, mode='a')\<close>
  creates the file when it is missing, and \<open>writer.write\<close> adds one line at its end.
\<close>

type_synonym 'f files = "string \<Rightarrow> 'f json list option"

definition content :: "'f files \<Rightarrow> string \<Rightarrow> 'f json list" where
  "content fs path = (case fs path of None \<Rightarrow> [] | Some ls \<Rightarrow> ls)"

definition append_line :: "string \<Rightarrow> 'f json \<Rightarrow> 'f files \<Rightarrow> 'f files" where
  "append_line path j fs = fs(path \<mapsto> content fs path @ [j])"

section \<open>\<open>extract_packets.py\<close>\<close>

text \<open>
  A decoded packet as \<open>read_packet\<close> uses it: the layers \<open>ip\<close>, \<open>udp\<close> and \<open>tcp\<close>, each
  present or not (\<open>'IP' in packet\<close>), and the capture time. All attributes of a layer
  are strings.
\<close>

record ip_layer =
  ip_dsfield_dscp :: string
  ip_hdr_len :: string
  ip_dsfield :: string
  ip_dsfield_ecn :: string
  ip_len :: string
  ip_proto :: string
  ip_flags_df :: string
  ip_flags_mf :: string
  ip_flags_rb :: string
  ip_frag_offset :: string
  ip_ttl :: string
  ip_src :: string
  ip_dst :: string

record transport_layer =
  layer_srcport :: string
  layer_dstport :: string

record pyshark_packet =
  ip :: "ip_layer option"
  udp :: "transport_layer option"
  tcp :: "transport_layer option"
  packet_sniff_timestamp :: string

text \<open>
  \<open>packet.udp.srcport if 'UDP' in packet else packet.tcp.srcport if 'TCP' in packet
  else -1\<close>, and the same for \<open>dstport\<close>.
\<close>

definition select_srcport :: "pyshark_packet \<Rightarrow> raw" where
  "select_srcport packet =
     (case udp packet of
        Some u \<Rightarrow> RStr (layer_srcport u)
      | None \<Rightarrow> (case tcp packet of Some t \<Rightarrow> RStr (layer_srcport t) | None \<Rightarrow> RInt (- 1)))"

definition select_dstport :: "pyshark_packet \<Rightarrow> raw" where
  "select_dstport packet =
     (case udp packet of
        Some u \<Rightarrow> RStr (layer_dstport u)
      | None \<Rightarrow> (case tcp packet of Some t \<Rightarrow> RStr (layer_dstport t) | None \<Rightarrow> RInt (- 1)))"

definition packet_kwargs :: "pyshark_packet \<Rightarrow> ip_layer \<Rightarrow> kwargs" where
  "packet_kwargs packet l =
     \<lparr>kw_dsfield_dscp = RStr (ip_dsfield_dscp l),
      kw_hdr_len = RStr (ip_hdr_len l),
      kw_dsfield = RStr (ip_dsfield l),
      kw_dsfield_ecn = RStr (ip_dsfield_ecn l),
      kw_len = RStr (ip_len l),
      kw_proto = RStr (ip_proto l),
      kw_flags_df = RStr (ip_flags_df l),
      kw_flags_mf = RStr (ip_flags_mf l),
      kw_flags_rb = RStr (ip_flags_rb l),
      kw_frag_offset = RStr (ip_frag_offset l),
      kw_ttl = RStr (ip_ttl l),
      kw_src = RStr (ip_src l),
      kw_dst = RStr (ip_dst l),
      kw_srcport = select_srcport packet,
      kw_dstport = select_dstport packet,
      kw_sniff_timestamp = RStr (packet_sniff_timestamp packet)\<rparr>"

text \<open>
  \<open>read_packet\<close>: the files after the call, or the exception it ends with. Nothing in
  it catches an exception of \<open>Packet(...)\<close>, which is raised before the file is opened.
\<close>

definition read_packet ::
  "'f coercion \<Rightarrow> pyshark_packet \<Rightarrow> string \<Rightarrow> 'f files \<Rightarrow> error + 'f files" where
  "read_packet V packet path fs =
     (case ip packet of
        None \<Rightarrow> Inr fs
      | Some l \<Rightarrow>
          (case Packet_new V (packet_kwargs packet l) of
             Inl e \<Rightarrow> Inl e
           | Inr pckt \<Rightarrow> Inr (append_line path (model_dump V pckt) fs)))"

text \<open>
  \<open>read_pcap\<close> with \<open>n_jobs = 1\<close>: joblib then calls \<open>read_packet\<close> in the calling
  thread, packet by packet as the capture yields them, and \<open>read_pcap\<close> catches
  nothing. The result is the exception that ended the run, if any, and the files as
  the run left them. The elapsed time that \<open>read_pcap\<close> returns is left out.
\<close>

fun read_pcap_sequential ::
  "'f coercion \<Rightarrow> pyshark_packet list \<Rightarrow> string \<Rightarrow> 'f files \<Rightarrow> error option \<times> 'f files" where
  "read_pcap_sequential V [] save_to fs = (None, fs)"
| "read_pcap_sequential V (packet # pcap) save_to fs =
     (case read_packet V packet save_to fs of
        Inl e \<Rightarrow> (Some e, fs)
      | Inr fs' \<Rightarrow> read_pcap_sequential V pcap save_to fs')"

section \<open>Reading the result of a run\<close>

text \<open>The record that \<open>read_packet\<close> builds for a packet, if it builds one.\<close>

definition record_of :: "'f coercion \<Rightarrow> pyshark_packet \<Rightarrow> 'f Packet option" where
  "record_of V packet =
     (case ip packet of
        None \<Rightarrow> None
      | Some l \<Rightarrow>
          (case Packet_new V (packet_kwargs packet l) of Inl e \<Rightarrow> None | Inr pckt \<Rightarrow> Some pckt))"

definition has_ip :: "pyshark_packet \<Rightarrow> bool" where
  "has_ip packet = (case ip packet of None \<Rightarrow> False | Some l \<Rightarrow> True)"

definition accepted :: "'f coercion \<Rightarrow> pyshark_packet \<Rightarrow> bool" where
  "accepted V packet =
     (case ip packet of
        None \<Rightarrow> True
      | Some l \<Rightarrow>
          (case Packet_new V (packet_kwargs packet l) of Inl e \<Rightarrow> False | Inr pckt \<Rightarrow> True))"

definition entries :: "'f coercion \<Rightarrow> pyshark_packet list \<Rightarrow> 'f json list" where
  "entries V pcap = map (model_dump V) (List.map_filter (record_of V) pcap)"

definition field_names :: "string list" where
  "field_names =
     [''dsfield_dscp'', ''hdr_len'', ''dsfield'', ''dsfield_ecn'', ''len'', ''proto'',
      ''flags_df'', ''flags_mf'', ''flags_rb'', ''frag_offset'', ''ttl'', ''src'', ''dst'',
      ''srcport'', ''dstport'', ''sniff_timestamp'']"

definition flags_rb_zero :: "'f json \<Rightarrow> bool" where
  "flags_rb_zero j = (member j ''flags_rb'' = Some (JInt 0))"

section \<open>An instance for examples\<close>

text \<open>
  A coercion that takes what every release of pydantic takes: a string of decimal
  digits for an integer, and digits, a point and digits for a float. In this instance
  a float is written as its decimal text.
\<close>

definition is_decimal :: "char \<Rightarrow> bool" where
  "is_decimal c = (let n = (of_char c :: nat) in 48 \<le> n \<and> n \<le> 57)"

fun decimal_value :: "nat \<Rightarrow> string \<Rightarrow> nat" where
  "decimal_value acc [] = acc"
| "decimal_value acc (c # cs) = decimal_value (10 * acc + (of_char c - 48)) cs"

definition decimal_int :: "raw \<Rightarrow> int option" where
  "decimal_int v =
     (case v of
        RStr s \<Rightarrow> if s \<noteq> [] \<and> list_all is_decimal s then Some (int (decimal_value 0 s)) else None
      | _ \<Rightarrow> None)"

definition decimal_float :: "raw \<Rightarrow> string option" where
  "decimal_float v =
     (case v of
        RStr s \<Rightarrow>
          (let a = takeWhile is_decimal s; r = dropWhile is_decimal s
           in case r of
                [] \<Rightarrow> None
              | c # b \<Rightarrow> if c = CHR ''.'' \<and> a \<noteq> [] \<and> b \<noteq> [] \<and> list_all is_decimal b
                         then Some s else None)
      | _ \<Rightarrow> None)"

definition decimal :: "string coercion" where
  "decimal = \<lparr>lax_int = decimal_int, lax_float = decimal_float,
              lax_str = (\<lambda>v. None), float_json = JFloat\<rparr>"

definition ip_example :: ip_layer where
  "ip_example =
     \<lparr>ip_dsfield_dscp = ''0'', ip_hdr_len = ''20'', ip_dsfield = ''0x00'',
      ip_dsfield_ecn = ''0'', ip_len = ''60'', ip_proto = ''17'', ip_flags_df = ''1'',
      ip_flags_mf = ''0'', ip_flags_rb = ''0'', ip_frag_offset = ''0'', ip_ttl = ''64'',
      ip_src = ''10.0.0.1'', ip_dst = ''10.0.0.2''\<rparr>"

definition udp_example :: transport_layer where
  "udp_example = \<lparr>layer_srcport = ''53'', layer_dstport = ''5353''\<rparr>"

definition tcp_example :: transport_layer where
  "tcp_example = \<lparr>layer_srcport = ''443'', layer_dstport = ''50000''\<rparr>"

definition packet_example :: pyshark_packet where
  "packet_example =
     \<lparr>ip = Some ip_example, udp = Some udp_example, tcp = None,
      packet_sniff_timestamp = ''1500000000.25''\<rparr>"

definition kwargs_example :: kwargs where
  "kwargs_example = packet_kwargs packet_example ip_example"

definition no_files :: "string files" where
  "no_files = (\<lambda>path. None)"

definition packet_bad_dsfield :: pyshark_packet where
  "packet_bad_dsfield = packet_example\<lparr>ip := Some (ip_example\<lparr>ip_dsfield := ''zz''\<rparr>)\<rparr>"

definition packet_bad_flags :: pyshark_packet where
  "packet_bad_flags = packet_example\<lparr>ip := Some (ip_example\<lparr>ip_flags_rb := ''1''\<rparr>)\<rparr>"

definition packet_tcp :: pyshark_packet where
  "packet_tcp = packet_example\<lparr>udp := None, tcp := Some tcp_example\<rparr>"

definition packet_both :: pyshark_packet where
  "packet_both = packet_example\<lparr>tcp := Some tcp_example\<rparr>"

definition packet_icmp :: pyshark_packet where
  "packet_icmp = packet_example\<lparr>udp := None, tcp := None\<rparr>"

definition packet_arp :: pyshark_packet where
  "packet_arp = packet_example\<lparr>ip := None, udp := None, tcp := None\<rparr>"

text \<open>A value is text when \<open>int(v, 16)\<close> reads it: a string or bytes.\<close>

definition is_text :: "raw \<Rightarrow> bool" where
  "is_text v = (case v of RStr s \<Rightarrow> True | RBytes s \<Rightarrow> True | _ \<Rightarrow> False)"

text \<open>The records that \<open>read_packet\<close> builds for the example packets.\<close>

definition record_example :: "string Packet" where
  "record_example =
     \<lparr>dsfield_dscp = 0, hdr_len = 20, dsfield = 0, dsfield_ecn = 0, len = 60, proto = 17,
      flags_df = 1, flags_mf = 0, flags_rb = 0, frag_offset = 0, ttl = 64,
      src = ''10.0.0.1'', dst = ''10.0.0.2'', srcport = 53, dstport = 5353,
      sniff_timestamp = ''1500000000.25''\<rparr>"

definition record_tcp :: "string Packet" where
  "record_tcp = record_example\<lparr>srcport := 443, dstport := 50000\<rparr>"

definition record_icmp :: "string Packet" where
  "record_icmp = record_example\<lparr>srcport := - 1, dstport := - 1\<rparr>"

text \<open>An entry of the log as the output format describes it.\<close>

definition well_formed_entry :: "'f json \<Rightarrow> bool" where
  "well_formed_entry j =
     (is_object j \<and> keys j = field_names \<and>
      (case member j ''dsfield'' of Some (JInt n) \<Rightarrow> True | _ \<Rightarrow> False))"

section \<open>Facts about \<open>int(v, 16)\<close>\<close>

lemma char_of_code: "(of_char c :: nat) = of_char d \<Longrightarrow> c = d"
  by simp

lemma hex_table_digit_value: "(c, d) \<in> set hex_table \<Longrightarrow> digit_value c = Some d"
  unfolding hex_table_def by (auto simp: digit_value_def)

lemma decimal_range:
  "(48::nat) \<le> n \<Longrightarrow> n \<le> 57 \<Longrightarrow>
   n = 48 \<or> n = 49 \<or> n = 50 \<or> n = 51 \<or> n = 52 \<or> n = 53 \<or> n = 54 \<or> n = 55 \<or> n = 56 \<or> n = 57"
  by arith

lemma lower_range:
  "(97::nat) \<le> n \<Longrightarrow> n \<le> 102 \<Longrightarrow>
   n = 97 \<or> n = 98 \<or> n = 99 \<or> n = 100 \<or> n = 101 \<or> n = 102"
  by arith

lemma upper_range:
  "(65::nat) \<le> n \<Longrightarrow> n \<le> 70 \<Longrightarrow>
   n = 65 \<or> n = 66 \<or> n = 67 \<or> n = 68 \<or> n = 69 \<or> n = 70"
  by arith


lemma digit_value_hex_table:
  assumes "digit_value c = Some d"
  shows "(c, d) \<in> set hex_table"
proof -
  define n where "n = (of_char c :: nat)"
  have n: "(of_char c :: nat) = n" by (simp add: n_def)
  have dv: "digit_value c =
     (if 48 \<le> n \<and> n \<le> 57 then Some (n - 48)
      else if 97 \<le> n \<and> n \<le> 102 then Some (n - 87)
      else if 65 \<le> n \<and> n \<le> 70 then Some (n - 55)
      else None)"
    by (simp add: digit_value_def n_def Let_def)
  consider (dec) "48 \<le> n" "n \<le> 57" "d = n - 48"
    | (low) "97 \<le> n" "n \<le> 102" "d = n - 87"
    | (up) "65 \<le> n" "n \<le> 70" "d = n - 55"
    using assms unfolding dv by (auto split: if_splits)
  then show ?thesis
  proof cases
    case dec
    from decimal_range [OF dec(1,2)] n dec(3) show ?thesis
      unfolding hex_table_def by (elim disjE) (auto intro: char_of_code)
  next
    case low
    from lower_range [OF low(1,2)] n low(3) show ?thesis
      unfolding hex_table_def by (elim disjE) (auto intro: char_of_code)
  next
    case up
    from upper_range [OF up(1,2)] n up(3) show ?thesis
      unfolding hex_table_def by (elim disjE) (auto intro: char_of_code)
  qed
qed

lemma digit_value_table: "digit_value c = hex_digit c"
proof (cases "digit_value c")
  case None
  have "hex_digit c = None"
  proof (cases "hex_digit c")
    case (Some d)
    then have "(c, d) \<in> set hex_table"
      unfolding hex_digit_def by (rule map_of_SomeD)
    with None show ?thesis by (simp add: hex_table_digit_value)
  qed simp
  with None show ?thesis by simp
next
  case (Some d)
  then have "(c, d) \<in> set hex_table" by (rule digit_value_hex_table)
  moreover have "distinct (map fst hex_table)" by (simp add: hex_table_def)
  ultimately have "hex_digit c = Some d"
    unfolding hex_digit_def by simp
  with Some show ?thesis by simp
qed


lemma is_digit16_is_hex: "is_digit16 c = is_hex c"
  by (simp add: is_digit16_def is_hex_def digit_value_table)


lemma is_hex_plain:
  assumes "is_hex c"
  shows "\<not> is_space c" and "c \<noteq> CHR ''-''" and "c \<noteq> CHR ''+''" and "c \<noteq> CHR ''x''"
    and "c \<noteq> CHR ''X''" and "c \<noteq> CHR ''_''"
proof -
  from assms obtain d where "hex_digit c = Some d"
    by (auto simp: is_hex_def split: option.splits)
  then have "(c, d) \<in> set hex_table"
    unfolding hex_digit_def by (rule map_of_SomeD)
  then have "\<not> is_space c \<and> c \<noteq> CHR ''-'' \<and> c \<noteq> CHR ''+'' \<and> c \<noteq> CHR ''x'' \<and> c \<noteq> CHR ''X'' \<and>
      c \<noteq> CHR ''_''"
    unfolding hex_table_def by (auto simp: is_space_def)
  then show "\<not> is_space c" and "c \<noteq> CHR ''-''" and "c \<noteq> CHR ''+''" and "c \<noteq> CHR ''x''"
    and "c \<noteq> CHR ''X''" and "c \<noteq> CHR ''_''"
    by simp_all
qed

lemma literal_char_is_hex: "is_hex c \<Longrightarrow> literal_char c"
  by (simp add: literal_char_def is_digit16_is_hex)

lemma digits_value_hex:
  "list_all is_hex s \<Longrightarrow> digits_value acc s = acc * 16 ^ length s + hex_value s"
proof (induction s arbitrary: acc)
  case Nil
  show ?case by simp
next
  case (Cons c s)
  then obtain d where d: "hex_digit c = Some d"
    by (auto simp: is_hex_def split: option.splits)
  from Cons.prems have "list_all is_hex s" by simp
  then have "digits_value (16 * acc + d) s = (16 * acc + d) * 16 ^ length s + hex_value s"
    by (rule Cons.IH)
  then show ?case
    by (simp add: digit_value_table d algebra_simps)
qed

lemma underscores_ok_hex: "s \<noteq> [] \<Longrightarrow> list_all is_hex s \<Longrightarrow> underscores_ok s"
  by (induction s rule: underscores_ok.induct) (auto dest: is_hex_plain(6))

lemma strip_prefix16_hex: "list_all is_hex s \<Longrightarrow> strip_prefix16 s = s"
  by (cases s rule: strip_prefix16.cases) (auto dest: is_hex_plain(4,5))

lemma takeWhile_literal_hex: "list_all is_hex s \<Longrightarrow> takeWhile literal_char s = s"
  by (induction s) (simp_all add: literal_char_is_hex)

lemma dropWhile_literal_hex: "list_all is_hex s \<Longrightarrow> dropWhile literal_char s = []"
  by (induction s) (simp_all add: literal_char_is_hex)

lemma hex_body:
  assumes "is_hex_string s"
  shows "takeWhile literal_char s = s" and "dropWhile literal_char s = []"
    and "underscores_ok s" and "digits_value 0 s = hex_value s"
  using assms
  by (simp_all add: is_hex_string_def takeWhile_literal_hex dropWhile_literal_hex
      underscores_ok_hex digits_value_hex)



lemma int_base16_negative:
  assumes "is_hex_string s"
  shows "int_base16 (CHR ''-'' # s) = Some (- int (hex_value s))"
proof -
  from assms have h: "list_all is_hex s" by (simp add: is_hex_string_def)
  have "dropWhile is_space (CHR ''-'' # s) = CHR ''-'' # s"
    by (simp add: is_space_def)
  then show ?thesis
    by (simp add: int_base16_def Let_def strip_prefix16_hex [OF h] hex_body [OF assms])
qed









section \<open>Facts about \<open>Packet(...)\<close>\<close>

lemma value_of_Some: "value_of r = Some a \<longleftrightarrow> r = Valid a"
  by (cases r) (simp_all add: value_of_def)

lemma status_of_Passed: "status_of r = Passed \<longleftrightarrow> (\<exists>a. r = Valid a)"
  by (cases r) (simp_all add: status_of_def)

lemma validated_fields:
  assumes "validated V kw = Some p"
  shows "int_field V (kw_dsfield_dscp kw) = Valid (dsfield_dscp p)"
    and "int_field V (kw_hdr_len kw) = Valid (hdr_len p)"
    and "dsfield_field V (kw_dsfield kw) = Valid (dsfield p)"
    and "int_field V (kw_dsfield_ecn kw) = Valid (dsfield_ecn p)"
    and "int_field V (kw_len kw) = Valid (len p)"
    and "int_field V (kw_proto kw) = Valid (proto p)"
    and "int_field V (kw_flags_df kw) = Valid (flags_df p)"
    and "int_field V (kw_flags_mf kw) = Valid (flags_mf p)"
    and "flags_rb_field V (kw_flags_rb kw) = Valid (flags_rb p)"
    and "int_field V (kw_frag_offset kw) = Valid (frag_offset p)"
    and "int_field V (kw_ttl kw) = Valid (ttl p)"
    and "str_field V (kw_src kw) = Valid (src p)"
    and "str_field V (kw_dst kw) = Valid (dst p)"
    and "int_field V (kw_srcport kw) = Valid (srcport p)"
    and "int_field V (kw_dstport kw) = Valid (dstport p)"
    and "float_field V (kw_sniff_timestamp kw) = Valid (sniff_timestamp p)"
  using assms
  by (auto simp: validated_def bind_eq_Some_conv value_of_Some)

lemma report_None:
  "report fs errs = None \<longleftrightarrow> errs = [] \<and> list_all (\<lambda>f. snd (snd f) = Passed) fs"
  by (induction fs errs rule: report.induct) auto

lemma report_not_empty: "report fs errs \<noteq> Some (ValidationError [])"
  by (induction fs errs rule: report.induct) auto

lemma validated_report:
  assumes "validated V kw = Some p"
  shows "report (field_statuses V kw) [] = None"
  using validated_fields [OF assms]
  by (simp add: report_None field_statuses_def status_of_def)

lemma report_validated:
  assumes "report (field_statuses V kw) [] = None"
  shows "\<exists>p. validated V kw = Some p"
proof -
  from assms have "list_all (\<lambda>f. snd (snd f) = Passed) (field_statuses V kw)"
    by (simp add: report_None)
  then show ?thesis
    by (simp add: field_statuses_def status_of_Passed validated_def value_of_def)
       (elim conjE exE, simp)
qed

lemma Packet_new_Inr: "Packet_new V kw = Inr p \<longleftrightarrow> validated V kw = Some p"
  using report_validated [of V kw] validated_report [of V kw]
  by (auto simp: Packet_new_def split: option.splits)

lemma Packet_new_report_nonempty: "Packet_new V kw \<noteq> Inl (ValidationError [])"
proof (cases "report (field_statuses V kw) []")
  case None
  with report_validated [of V kw] show ?thesis
    by (auto simp: Packet_new_def)
next
  case (Some e)
  with report_not_empty [of "field_statuses V kw" "[]"] show ?thesis
    by (auto simp: Packet_new_def)
qed

lemma int_field_not_Escaped: "int_field V v \<noteq> Escaped e"
  by (simp add: int_field_def coerced_def split: option.splits)

lemma int_field_Valid: "int_field V v = Valid n \<longleftrightarrow> validate_int V v = Some n"
  by (simp add: int_field_def coerced_def split: option.splits)

lemma int_field_RInt: "int_field V (RInt n) = Valid n"
  by (simp add: int_field_Valid validate_int_def)

lemma flags_rb_field_Valid:
  "flags_rb_field V v = Valid n \<longleftrightarrow> validate_int V v = Some n \<and> n = 0"
  by (auto simp: flags_rb_field_def from_validator_def flags_rb_must_be_zero_def
      split: option.splits)

lemma flags_rb_field_nonzero:
  "validate_int V v = Some n \<Longrightarrow> n \<noteq> 0 \<Longrightarrow> flags_rb_field V v = Escaped TypeError"
  by (simp add: flags_rb_field_def from_validator_def flags_rb_must_be_zero_def)

lemma dsfield_field_Valid:
  "dsfield_field V v = Valid n \<longleftrightarrow> set_dsfield_int16 v = Inr n"
  by (auto simp: dsfield_field_def from_validator_def int_field_RInt
      split: sum.splits exn.splits)

lemma dsfield_field_Escaped:
  "dsfield_field V v = Escaped e \<longleftrightarrow> set_dsfield_int16 v = Inl TypeError \<and> e = TypeError"
  by (auto simp: dsfield_field_def from_validator_def int_field_RInt
      split: sum.splits exn.splits)

lemma dsfield_field_not_text:
  "\<not> is_text v \<Longrightarrow> dsfield_field V v = Escaped TypeError"
  by (cases v) (simp_all add: dsfield_field_Escaped set_dsfield_int16_def is_text_def)

lemma report_Raised_first:
  "list_all (\<lambda>f. \<forall>e. snd (snd f) \<noteq> Raised e) fs \<Longrightarrow>
   report (fs @ (name, v, Raised e) # gs) errs = Some (Uncaught e)"
  by (induction fs errs rule: report.induct) auto

lemma status_of_Raised: "status_of r = Raised e \<longleftrightarrow> r = Escaped e"
  by (cases r) (simp_all add: status_of_def)

lemma Packet_new_dsfield_escapes:
  assumes "dsfield_field V (kw_dsfield kw) = Escaped e"
  shows "Packet_new V kw = Inl (Uncaught e)"
proof -
  have "report (field_statuses V kw) [] = Some (Uncaught e)"
    using assms
    by (cases "int_field V (kw_dsfield_dscp kw)"; cases "int_field V (kw_hdr_len kw)")
       (simp_all add: field_statuses_def status_of_def int_field_not_Escaped)
  then show ?thesis by (simp add: Packet_new_def)
qed

lemma report_TypeError_only:
  "list_all (\<lambda>f. \<forall>e. snd (snd f) = Raised e \<longrightarrow> e = TypeError) fs \<Longrightarrow>
   list_ex (\<lambda>f. snd (snd f) = Raised TypeError) fs \<Longrightarrow>
   report fs errs = Some (Uncaught TypeError)"
  by (induction fs errs rule: report.induct) auto

lemma Packet_new_flags_rb_nonzero:
  assumes "validate_int V (kw_flags_rb kw) = Some n" and "n \<noteq> 0"
  shows "Packet_new V kw = Inl (Uncaught TypeError)"
proof -
  have rb: "status_of (flags_rb_field V (kw_flags_rb kw)) = Raised TypeError"
    using flags_rb_field_nonzero [OF assms] by (simp add: status_of_def)
  have ds: "status_of (dsfield_field V (kw_dsfield kw)) = Raised e \<Longrightarrow> e = TypeError" for e
    by (simp add: status_of_Raised dsfield_field_Escaped)
  have "report (field_statuses V kw) [] = Some (Uncaught TypeError)"
    apply (rule report_TypeError_only)
    using rb ds
     apply (simp_all add: field_statuses_def status_of_Raised int_field_not_Escaped
        str_field_def float_field_def coerced_def split: option.splits)
    done
  then show ?thesis by (simp add: Packet_new_def)
qed

section \<open>Facts about a run\<close>

lemma content_append_line:
  "content (append_line path j fs) path' =
     (if path' = path then content fs path @ [j] else content fs path')"
  by (simp add: content_def append_line_def)

lemma read_packet_no_ip: "ip packet = None \<Longrightarrow> read_packet V packet path fs = Inr fs"
  by (simp add: read_packet_def)

lemma read_packet_accepted:
  "(\<exists>fs'. read_packet V packet path fs = Inr fs') \<longleftrightarrow> accepted V packet"
  by (auto simp: read_packet_def accepted_def split: option.splits sum.splits)

lemma read_packet_content:
  assumes "read_packet V packet path fs = Inr fs'"
  shows "content fs' path = content fs path @ entries V [packet]"
  using assms
  by (auto simp: read_packet_def entries_def record_of_def
      content_append_line split: option.splits sum.splits)

lemma read_packet_frame:
  assumes "read_packet V packet path fs = Inr fs'" and "path' \<noteq> path"
  shows "fs' path' = fs path'"
  using assms
  by (auto simp: read_packet_def append_line_def split: option.splits sum.splits)

lemma entries_Cons: "entries V (packet # pcap) = entries V [packet] @ entries V pcap"
  by (simp add: entries_def split: option.splits)

lemma read_pcap_sequential_content:
  "content (snd (read_pcap_sequential V pcap path fs)) path =
     content fs path @ entries V (takeWhile (accepted V) pcap)"
proof (induction pcap arbitrary: fs)
  case Nil
  show ?case by (simp add: entries_def)
next
  case (Cons packet pcap)
  show ?case
  proof (cases "read_packet V packet path fs")
    case (Inl e)
    then have "\<not> accepted V packet"
      using read_packet_accepted [of V packet path fs] by auto
    with Inl show ?thesis by (simp add: entries_def)
  next
    case (Inr fs')
    then have acc: "accepted V packet"
      using read_packet_accepted [of V packet path fs] by auto
    have "content (snd (read_pcap_sequential V (packet # pcap) path fs)) path =
          content (snd (read_pcap_sequential V pcap path fs')) path"
      using Inr by simp
    also have "\<dots> = content fs' path @ entries V (takeWhile (accepted V) pcap)"
      by (rule Cons.IH)
    also have "\<dots> = content fs path @ entries V (packet # takeWhile (accepted V) pcap)"
      by (simp only: read_packet_content [OF Inr] append_assoc
          entries_Cons [of V packet "takeWhile (accepted V) pcap"])
    also have "packet # takeWhile (accepted V) pcap = takeWhile (accepted V) (packet # pcap)"
      using acc by simp
    finally show ?thesis .
  qed
qed

lemma read_pcap_sequential_completes:
  "fst (read_pcap_sequential V pcap path fs) = None \<longleftrightarrow> list_all (accepted V) pcap"
proof (induction pcap arbitrary: fs)
  case Nil
  show ?case by simp
next
  case (Cons packet pcap)
  show ?case
    using read_packet_accepted [of V packet path fs] Cons.IH
    by (cases "read_packet V packet path fs") auto
qed

lemma read_pcap_sequential_append:
  "read_pcap_sequential V (xs @ ys) path fs =
     (case read_pcap_sequential V xs path fs of
        (Some e, fs') \<Rightarrow> (Some e, fs')
      | (None, fs') \<Rightarrow> read_pcap_sequential V ys path fs')"
  by (induction xs arbitrary: fs) (auto split: sum.splits)

lemma record_of_flags_rb: "record_of V packet = Some p \<Longrightarrow> flags_rb p = 0"
  by (auto simp: record_of_def Packet_new_Inr flags_rb_field_Valid
      split: option.splits sum.splits dest!: validated_fields(9))

lemma entries_flags_rb: "list_all flags_rb_zero (entries V pcap)"
  by (induction pcap)
     (auto simp: entries_def flags_rb_zero_def member_def model_dump_def
       dest: record_of_flags_rb split: option.splits)

section \<open>The example packets, evaluated\<close>

lemmas example_defs =
  record_of_def packet_example_def ip_example_def udp_example_def tcp_example_def
  packet_kwargs_def select_srcport_def select_dstport_def Packet_new_def field_statuses_def
  validated_def int_field_def str_field_def float_field_def flags_rb_field_def
  dsfield_field_def coerced_def validate_int_def validate_str_def validate_float_def
  from_validator_def flags_rb_must_be_zero_def set_dsfield_int16_def int_base16_def
  is_space_def literal_char_def is_digit16_def digit_value_def status_of_def value_of_def
  decimal_def decimal_int_def decimal_float_def is_decimal_def record_example_def
  record_tcp_def record_icmp_def packet_tcp_def packet_both_def packet_icmp_def
  packet_arp_def packet_bad_dsfield_def packet_bad_flags_def kwargs_example_def


lemma Packet_new_example: "Packet_new decimal kwargs_example = Inr record_example"
  by (simp add: example_defs)

lemma record_of_examples:
  "record_of decimal packet_example = Some record_example"
  "record_of decimal packet_both = Some record_example"
  "record_of decimal packet_tcp = Some record_tcp"
  "record_of decimal packet_icmp = Some record_icmp"
  "record_of decimal packet_arp = None"
  "record_of decimal packet_bad_dsfield = None"
  "record_of decimal packet_bad_flags = None"
  by (simp_all add: example_defs)

lemma accepted_examples:
  "accepted decimal packet_example" "accepted decimal packet_tcp"
  "accepted decimal packet_arp" "\<not> accepted decimal packet_bad_dsfield"
  "\<not> accepted decimal packet_bad_flags"
  by (simp_all add: accepted_def example_defs)

lemma read_packet_bad_examples:
  "read_packet decimal packet_bad_dsfield path fs = Inl (ValidationError [(''dsfield'', RStr ''zz'')])"
  "read_packet decimal packet_bad_flags path fs = Inl (Uncaught TypeError)"
  by (simp_all add: read_packet_def example_defs)

lemma read_packet_record:
  "record_of V packet = Some p \<Longrightarrow>
   read_packet V packet path fs = Inr (append_line path (model_dump V p) fs)"
  by (auto simp: record_of_def read_packet_def split: option.splits sum.splits)

lemma read_packet_rejected:
  "ip packet = Some l \<Longrightarrow> Packet_new V (packet_kwargs packet l) = Inl e \<Longrightarrow>
   read_packet V packet path fs = Inl e"
  by (simp add: read_packet_def)

lemma content_no_files: "content no_files path = []"
  by (simp add: content_def no_files_def)

section \<open>The claims\<close>

lemma run_keeps_flags_rb_zero:
  assumes "list_all flags_rb_zero (content fs path)"
  shows "list_all flags_rb_zero (content (snd (read_pcap_sequential V pcap path fs)) path)"
  using assms entries_flags_rb [of V "takeWhile (accepted V) pcap"]
  by (simp add: read_pcap_sequential_content)

text \<open>
  C1. Every record that is produced and written to the log has \<open>flags_rb\<close> equal to 0,
  and a nonzero \<open>flags_rb\<close> is rejected, never turned into 0: an instance that
  \<open>Packet(...)\<close> returns has \<open>flags_rb = 0\<close>; when the value passed for \<open>flags_rb\<close> coerces
  to a nonzero integer \<open>Packet(...)\<close> raises; and a run of \<open>read_pcap\<close> on a log whose
  entries all have \<open>flags_rb\<close> 0 leaves a log whose entries all have \<open>flags_rb\<close> 0.
\<close>

theorem flags_rb_invariant:
  "(Packet_new V kw = Inr p \<longrightarrow> flags_rb p = 0) \<and>
   (validate_int V (kw_flags_rb kw) = Some n \<and> n \<noteq> 0 \<longrightarrow> (\<exists>e. Packet_new V kw = Inl e)) \<and>
   (list_all flags_rb_zero (content fs path) \<longrightarrow>
      list_all flags_rb_zero (content (snd (read_pcap_sequential V pcap path fs)) path))"
proof (intro conjI impI)
  assume "Packet_new V kw = Inr p"
  then have "flags_rb_field V (kw_flags_rb kw) = Valid (flags_rb p)"
    by (simp add: Packet_new_Inr validated_fields(9))
  then show "flags_rb p = 0"
    by (simp add: flags_rb_field_Valid)
next
  assume "validate_int V (kw_flags_rb kw) = Some n \<and> n \<noteq> 0"
  then have "Packet_new V kw = Inl (Uncaught TypeError)"
    by (simp add: Packet_new_flags_rb_nonzero)
  then show "\<exists>e. Packet_new V kw = Inl e" ..
next
  assume "list_all flags_rb_zero (content fs path)"
  then show "list_all flags_rb_zero (content (snd (read_pcap_sequential V pcap path fs)) path)"
    by (rule run_keeps_flags_rb_zero)
qed

theorem flags_rb_invariant_witness:
  "Packet_new decimal kwargs_example = Inr record_example \<and> flags_rb record_example = 0 \<and>
   validate_int decimal (kw_flags_rb (kwargs_example\<lparr>kw_flags_rb := RStr ''1''\<rparr>)) = Some 1 \<and>
   (\<exists>e. Packet_new decimal (kwargs_example\<lparr>kw_flags_rb := RStr ''1''\<rparr>) = Inl e) \<and>
   list_all flags_rb_zero (content no_files ''pcap.jsonl'') \<and>
   list_all flags_rb_zero
     (content (snd (read_pcap_sequential decimal [packet_example, packet_tcp] ''pcap.jsonl''
        no_files)) ''pcap.jsonl'')"
proof -
  have a: "Packet_new decimal kwargs_example = Inr record_example"
    by (rule Packet_new_example)
  have b: "validate_int decimal (kw_flags_rb (kwargs_example\<lparr>kw_flags_rb := RStr ''1''\<rparr>)) = Some 1"
    by (simp add: validate_int_def decimal_def decimal_int_def is_decimal_def)
  have c: "list_all flags_rb_zero (content no_files ''pcap.jsonl'')"
    by (simp add: content_no_files)
  from a b c
    flags_rb_invariant [of decimal kwargs_example record_example 0 no_files "''pcap.jsonl''"
      "[packet_example, packet_tcp]"]
    flags_rb_invariant [of decimal "kwargs_example\<lparr>kw_flags_rb := RStr ''1''\<rparr>" record_example 1
      no_files "''pcap.jsonl''" "[]"]
  show ?thesis by simp
qed

text \<open>
  C2. Port selection. For a packet with an IP layer for which a record is built: when a
  UDP layer is present (a TCP layer may be present too) the record's \<open>srcport\<close> and
  \<open>dstport\<close> are the UDP layer's ports, coerced to integers; otherwise, when a TCP layer
  is present, they are the TCP layer's ports; otherwise both are -1.
\<close>

theorem port_selection:
  assumes "record_of V packet = Some p"
  shows "case udp packet of
           Some u \<Rightarrow>
             validate_int V (RStr (layer_srcport u)) = Some (srcport p) \<and>
             validate_int V (RStr (layer_dstport u)) = Some (dstport p)
         | None \<Rightarrow>
             (case tcp packet of
                Some t \<Rightarrow>
                  validate_int V (RStr (layer_srcport t)) = Some (srcport p) \<and>
                  validate_int V (RStr (layer_dstport t)) = Some (dstport p)
              | None \<Rightarrow> srcport p = - 1 \<and> dstport p = - 1)"
proof -
  from assms obtain l where l: "ip packet = Some l"
    and v: "validated V (packet_kwargs packet l) = Some p"
    by (auto simp: record_of_def Packet_new_Inr split: option.splits sum.splits)
  have "validate_int V (select_srcport packet) = Some (srcport p)"
    and "validate_int V (select_dstport packet) = Some (dstport p)"
    using validated_fields(14,15) [OF v] by (simp_all add: int_field_Valid packet_kwargs_def)
  then show ?thesis
    by (auto simp: select_srcport_def select_dstport_def validate_int_def split: option.splits)
qed

theorem port_selection_witness:
  "record_of decimal packet_both = Some record_example \<and>
   udp packet_both = Some udp_example \<and> tcp packet_both = Some tcp_example \<and>
   layer_srcport udp_example = ''53'' \<and> layer_dstport udp_example = ''5353'' \<and>
   validate_int decimal (RStr ''53'') = Some (srcport record_example) \<and>
   validate_int decimal (RStr ''5353'') = Some (dstport record_example) \<and>
   srcport record_example = 53 \<and> dstport record_example = 5353 \<and>
   record_of decimal packet_tcp = Some record_tcp \<and>
   validate_int decimal (RStr ''443'') = Some (srcport record_tcp) \<and>
   validate_int decimal (RStr ''50000'') = Some (dstport record_tcp) \<and>
   record_of decimal packet_icmp = Some record_icmp \<and>
   srcport record_icmp = - 1 \<and> dstport record_icmp = - 1"
  using port_selection [OF record_of_examples(2)] port_selection [OF record_of_examples(3)]
    port_selection [OF record_of_examples(4)] record_of_examples(2,3,4)
  by (simp add: packet_both_def packet_tcp_def packet_icmp_def packet_example_def
      udp_example_def tcp_example_def record_example_def record_tcp_def record_icmp_def)


lemma Packet_new_dsfield_invalid:
  assumes "set_dsfield_int16 (kw_dsfield kw) = Inl x"
  shows "\<exists>e. Packet_new V kw = Inl e"
proof (cases "Packet_new V kw")
  case (Inl e)
  then show ?thesis by blast
next
  case (Inr p)
  then have "dsfield_field V (kw_dsfield kw) = Valid (dsfield p)"
    by (simp add: Packet_new_Inr validated_fields(3))
  with assms show ?thesis by (simp add: dsfield_field_Valid)
qed



text \<open>
  C4. A packet without an IP layer produces no record and no rejection: \<open>read_packet\<close>
  returns normally and leaves the files as they were, no record is built, and a run
  over a capture that contains the packet ends as the run over the capture without it.
\<close>

theorem no_ip_layer_skipped:
  assumes "ip packet = None"
  shows "read_packet V packet path fs = Inr fs \<and> record_of V packet = None \<and>
         read_pcap_sequential V (before @ packet # after) path fs =
           read_pcap_sequential V (before @ after) path fs"
proof -
  have r: "read_packet V packet path fs' = Inr fs'" for fs'
    using assms by (rule read_packet_no_ip)
  have "read_pcap_sequential V (packet # after) path fs' = read_pcap_sequential V after path fs'"
    for fs'
    by (simp add: r)
  then have "read_pcap_sequential V (before @ packet # after) path fs =
             read_pcap_sequential V (before @ after) path fs"
    by (simp add: read_pcap_sequential_append [of V before] split: prod.splits option.splits)
  with r assms show ?thesis by (simp add: record_of_def)
qed

theorem no_ip_layer_skipped_witness:
  "ip packet_arp = None \<and>
   read_packet decimal packet_arp ''pcap.jsonl'' no_files = Inr no_files \<and>
   record_of decimal packet_arp = None \<and>
   read_pcap_sequential decimal ([packet_example] @ packet_arp # [packet_tcp]) ''pcap.jsonl'' no_files =
     read_pcap_sequential decimal ([packet_example] @ [packet_tcp]) ''pcap.jsonl'' no_files"
proof -
  have a: "ip packet_arp = None" by (simp add: packet_arp_def)
  from a no_ip_layer_skipped [OF a, of decimal "''pcap.jsonl''" no_files "[packet_example]"
      "[packet_tcp]"]
  show ?thesis by simp
qed

text \<open>
  C5 as stated (a rejection is never thrown out of the per-packet step, the pipeline
  does not halt, all other packets are still processed and written) fails: for a capture
  of a packet with \<open>dsfield\<close> \<open>"zz"\<close>, or with \<open>flags_rb\<close> 1, followed by a valid packet,
  \<open>read_packet\<close> raises on the first packet, the run ends with that exception and the
  log stays empty, although the second packet alone gives a record.
\<close>

theorem rejection_not_local_counterexample:
  "record_of decimal packet_example = Some record_example \<and>
   read_packet decimal packet_bad_dsfield ''pcap.jsonl'' no_files =
     Inl (ValidationError [(''dsfield'', RStr ''zz'')]) \<and>
   fst (read_pcap_sequential decimal [packet_bad_dsfield, packet_example] ''pcap.jsonl'' no_files) =
     Some (ValidationError [(''dsfield'', RStr ''zz'')]) \<and>
   content (snd (read_pcap_sequential decimal [packet_bad_dsfield, packet_example] ''pcap.jsonl''
     no_files)) ''pcap.jsonl'' = [] \<and>
   read_packet decimal packet_bad_flags ''pcap.jsonl'' no_files = Inl (Uncaught TypeError) \<and>
   fst (read_pcap_sequential decimal [packet_bad_flags, packet_example] ''pcap.jsonl'' no_files) =
     Some (Uncaught TypeError) \<and>
   content (snd (read_pcap_sequential decimal [packet_bad_flags, packet_example] ''pcap.jsonl''
     no_files)) ''pcap.jsonl'' = []"
  by (simp add: record_of_examples read_packet_bad_examples content_no_files)

lemma takeWhile_all: "list_all P xs \<Longrightarrow> takeWhile P xs = xs"
  by (induction xs) simp_all

lemma read_pcap_sequential_accepted:
  "list_all (accepted V) pcap \<Longrightarrow>
   \<exists>fs'. read_pcap_sequential V pcap path fs = (None, fs')"
  using read_pcap_sequential_completes [of V pcap path fs]
  by (cases "read_pcap_sequential V pcap path fs") simp

text \<open>
  C5, amended. A packet with an IP layer whose \<open>dsfield\<close> is not a base-16 literal, or
  whose \<open>flags_rb\<close> coerces to a nonzero integer, makes \<open>read_packet\<close> raise; the
  exception is caught nowhere, so with \<open>n_jobs = 1\<close> the run ends at that packet with
  that exception: the records of the packets decoded before it are in the log, and
  nothing of the packets after it is written.
\<close>

theorem rejection_ends_run:
  assumes "ip packet = Some l"
    and "int_base16 (ip_dsfield l) = None \<or>
         (\<exists>n. validate_int V (RStr (ip_flags_rb l)) = Some n \<and> n \<noteq> 0)"
    and "list_all (accepted V) before"
  shows "\<exists>e. read_packet V packet path (snd (read_pcap_sequential V before path fs)) = Inl e \<and>
             read_pcap_sequential V (before @ packet # after) path fs =
               (Some e, snd (read_pcap_sequential V before path fs)) \<and>
             content (snd (read_pcap_sequential V before path fs)) path =
               content fs path @ entries V before"
proof -
  obtain e where e: "Packet_new V (packet_kwargs packet l) = Inl e"
    using assms(2)
  proof
    assume "int_base16 (ip_dsfield l) = None"
    then have "set_dsfield_int16 (kw_dsfield (packet_kwargs packet l)) = Inl ValueError"
      by (simp add: packet_kwargs_def set_dsfield_int16_def)
    then show ?thesis using Packet_new_dsfield_invalid that by blast
  next
    assume "\<exists>n. validate_int V (RStr (ip_flags_rb l)) = Some n \<and> n \<noteq> 0"
    then obtain n where "validate_int V (kw_flags_rb (packet_kwargs packet l)) = Some n" "n \<noteq> 0"
      by (auto simp: packet_kwargs_def)
    then show ?thesis using Packet_new_flags_rb_nonzero that by blast
  qed
  obtain fs' where fs': "read_pcap_sequential V before path fs = (None, fs')"
    using read_pcap_sequential_accepted [OF assms(3)] by blast
  have r: "read_packet V packet path fs' = Inl e"
    using assms(1) e by (rule read_packet_rejected)
  have "read_pcap_sequential V (before @ packet # after) path fs = (Some e, fs')"
    by (simp add: read_pcap_sequential_append [of V before] fs' r)
  moreover have "content fs' path = content fs path @ entries V before"
    using read_pcap_sequential_content [of V before path fs] fs'
    by (simp add: takeWhile_all [OF assms(3)])
  ultimately show ?thesis using r fs' by simp
qed

theorem rejection_ends_run_witness:
  "ip packet_bad_flags = Some (ip_example\<lparr>ip_flags_rb := ''1''\<rparr>) \<and>
   validate_int decimal (RStr (ip_flags_rb (ip_example\<lparr>ip_flags_rb := ''1''\<rparr>))) = Some 1 \<and>
   list_all (accepted decimal) [packet_example, packet_tcp] \<and>
   (\<exists>e. read_pcap_sequential decimal ([packet_example, packet_tcp] @ packet_bad_flags # [packet_example])
           ''pcap.jsonl'' no_files =
         (Some e, snd (read_pcap_sequential decimal [packet_example, packet_tcp] ''pcap.jsonl'' no_files))) \<and>
   content (snd (read_pcap_sequential decimal [packet_example, packet_tcp] ''pcap.jsonl'' no_files))
     ''pcap.jsonl'' = entries decimal [packet_example, packet_tcp]"
proof -
  have a: "ip packet_bad_flags = Some (ip_example\<lparr>ip_flags_rb := ''1''\<rparr>)"
    by (simp add: packet_bad_flags_def)
  have b: "validate_int decimal (RStr (ip_flags_rb (ip_example\<lparr>ip_flags_rb := ''1''\<rparr>))) = Some 1"
    by (simp add: validate_int_def decimal_def decimal_int_def is_decimal_def)
  then have b': "int_base16 (ip_dsfield (ip_example\<lparr>ip_flags_rb := ''1''\<rparr>)) = None \<or>
         (\<exists>n. validate_int decimal (RStr (ip_flags_rb (ip_example\<lparr>ip_flags_rb := ''1''\<rparr>))) = Some n \<and> n \<noteq> 0)"
    by simp
  have c: "list_all (accepted decimal) [packet_example, packet_tcp]"
    by (simp add: accepted_examples)
  from rejection_ends_run [OF a b' c, of "''pcap.jsonl''" no_files "[packet_example]"]
  obtain e where
    "read_pcap_sequential decimal ([packet_example, packet_tcp] @ packet_bad_flags # [packet_example])
           ''pcap.jsonl'' no_files =
         (Some e, snd (read_pcap_sequential decimal [packet_example, packet_tcp] ''pcap.jsonl'' no_files))"
    and "content (snd (read_pcap_sequential decimal [packet_example, packet_tcp] ''pcap.jsonl'' no_files))
     ''pcap.jsonl'' = content no_files ''pcap.jsonl'' @ entries decimal [packet_example, packet_tcp]"
    by blast
  with a b c show ?thesis by (simp only: content_no_files append_Nil) blast
qed

text \<open>
  C6. With \<open>n_jobs = 1\<close> the entries appended to the log come in the order in which the
  packets are decoded: after a run the log is the log from before, followed by the
  entries of the packets processed, in capture order; when the run ends without an
  exception these are the entries of all packets of the capture. The log after the run
  is a function of the capture and the log before, so two runs on the same capture
  give the same log.
\<close>

theorem sequential_order:
  "content (snd (read_pcap_sequential V pcap save_to fs)) save_to =
     content fs save_to @ entries V (takeWhile (accepted V) pcap) \<and>
   (fst (read_pcap_sequential V pcap save_to fs) = None \<longrightarrow>
      content (snd (read_pcap_sequential V pcap save_to fs)) save_to =
        content fs save_to @ entries V pcap) \<and>
   entries V pcap = map (model_dump V) (List.map_filter (record_of V) pcap)"
proof (intro conjI impI)
  show "content (snd (read_pcap_sequential V pcap save_to fs)) save_to =
          content fs save_to @ entries V (takeWhile (accepted V) pcap)"
    by (rule read_pcap_sequential_content)
next
  assume "fst (read_pcap_sequential V pcap save_to fs) = None"
  then have "list_all (accepted V) pcap"
    by (simp only: read_pcap_sequential_completes)
  then have tw: "takeWhile (accepted V) pcap = pcap"
    by (rule takeWhile_all)
  show "content (snd (read_pcap_sequential V pcap save_to fs)) save_to =
          content fs save_to @ entries V pcap"
    by (subst read_pcap_sequential_content) (simp only: tw)
next
  show "entries V pcap = map (model_dump V) (List.map_filter (record_of V) pcap)"
    by (simp add: entries_def)
qed

theorem sequential_order_witness:
  "fst (read_pcap_sequential decimal [packet_tcp, packet_arp, packet_example] ''pcap.jsonl'' no_files) = None \<and>
   content (snd (read_pcap_sequential decimal [packet_tcp, packet_arp, packet_example] ''pcap.jsonl''
     no_files)) ''pcap.jsonl'' = [model_dump decimal record_tcp, model_dump decimal record_example]"
proof -
  have a: "fst (read_pcap_sequential decimal [packet_tcp, packet_arp, packet_example] ''pcap.jsonl'' no_files) = None"
    by (simp add: read_pcap_sequential_completes accepted_examples
        del: read_pcap_sequential.simps)
  from a sequential_order [of decimal "[packet_tcp, packet_arp, packet_example]" "''pcap.jsonl''" no_files]
  have "content (snd (read_pcap_sequential decimal [packet_tcp, packet_arp, packet_example] ''pcap.jsonl''
     no_files)) ''pcap.jsonl'' = content no_files ''pcap.jsonl'' @ entries decimal [packet_tcp, packet_arp, packet_example]"
    by blast
  with a show ?thesis
    by (simp add: content_no_files entries_def record_of_examples)
qed

lemma well_formed_model_dump: "well_formed_entry (model_dump V p)"
  by (simp add: well_formed_entry_def is_object_def keys_def member_def model_dump_def
      field_names_def)

lemma entries_well_formed: "list_all well_formed_entry (entries V pcap)"
  by (simp add: entries_def list_all_iff well_formed_model_dump)

text \<open>
  C8. Every entry written to the log is one JSON object on a line of its own, whose
  keys are exactly the sixteen field names of the model, and whose \<open>dsfield\<close> is an
  integer, not the hexadecimal string: for a packet with a record, \<open>read_packet\<close> adds
  exactly one line to the file, the object of that record; its keys are the sixteen
  names, which are distinct; its member \<open>dsfield\<close> is the integer that \<open>int(v, 16)\<close>
  gives for the layer's string; and a run on a log of such entries leaves a log of such
  entries.
\<close>

theorem log_entry_format:
  "(record_of V packet = Some p \<longrightarrow>
      read_packet V packet path fs = Inr (append_line path (model_dump V p) fs) \<and>
      content (append_line path (model_dump V p) fs) path = content fs path @ [model_dump V p] \<and>
      is_object (model_dump V p) \<and> keys (model_dump V p) = field_names \<and>
      member (model_dump V p) ''dsfield'' = Some (JInt (dsfield p)) \<and>
      (\<exists>l. ip packet = Some l \<and> int_base16 (ip_dsfield l) = Some (dsfield p))) \<and>
   distinct field_names \<and> length field_names = 16 \<and>
   (list_all well_formed_entry (content fs path) \<longrightarrow>
      list_all well_formed_entry (content (snd (read_pcap_sequential V pcap path fs)) path))"
proof (intro conjI impI)
  assume r: "record_of V packet = Some p"
  show "read_packet V packet path fs = Inr (append_line path (model_dump V p) fs)"
    using r by (rule read_packet_record)
  show "content (append_line path (model_dump V p) fs) path = content fs path @ [model_dump V p]"
    by (simp add: content_append_line)
  show "is_object (model_dump V p)" "keys (model_dump V p) = field_names"
    using well_formed_model_dump [of V p] by (simp_all add: well_formed_entry_def)
  show "member (model_dump V p) ''dsfield'' = Some (JInt (dsfield p))"
    by (simp add: member_def model_dump_def)
  from r obtain l where l: "ip packet = Some l"
    and v: "validated V (packet_kwargs packet l) = Some p"
    by (auto simp: record_of_def Packet_new_Inr split: option.splits sum.splits)
  have "set_dsfield_int16 (RStr (ip_dsfield l)) = Inr (dsfield p)"
    using validated_fields(3) [OF v] by (simp add: dsfield_field_Valid packet_kwargs_def)
  then have "int_base16 (ip_dsfield l) = Some (dsfield p)"
    by (simp add: set_dsfield_int16_def split: option.splits)
  with l show "\<exists>l. ip packet = Some l \<and> int_base16 (ip_dsfield l) = Some (dsfield p)"
    by blast
next
  show "distinct field_names" "length field_names = 16"
    by (simp_all add: field_names_def)
next
  assume "list_all well_formed_entry (content fs path)"
  then show "list_all well_formed_entry (content (snd (read_pcap_sequential V pcap path fs)) path)"
    using entries_well_formed [of V "takeWhile (accepted V) pcap"]
    by (simp add: read_pcap_sequential_content)
qed

theorem log_entry_format_witness:
  "record_of decimal packet_example = Some record_example \<and>
   read_packet decimal packet_example ''pcap.jsonl'' no_files =
     Inr (append_line ''pcap.jsonl'' (model_dump decimal record_example) no_files) \<and>
   content (append_line ''pcap.jsonl'' (model_dump decimal record_example) no_files) ''pcap.jsonl'' =
     [model_dump decimal record_example] \<and>
   keys (model_dump decimal record_example) = field_names \<and>
   ip_dsfield ip_example = ''0x00'' \<and>
   member (model_dump decimal record_example) ''dsfield'' = Some (JInt 0) \<and>
   list_all well_formed_entry (content no_files ''pcap.jsonl'') \<and>
   list_all well_formed_entry
     (content (snd (read_pcap_sequential decimal [packet_example, packet_tcp] ''pcap.jsonl''
        no_files)) ''pcap.jsonl'')"
proof -
  have a: "record_of decimal packet_example = Some record_example"
    by (rule record_of_examples(1))
  have b: "list_all well_formed_entry (content no_files ''pcap.jsonl'')"
    by (simp add: content_no_files)
  have c: "dsfield record_example = 0" "ip_dsfield ip_example = ''0x00''"
    by (simp_all add: record_example_def ip_example_def)
  from a b c
    log_entry_format [of decimal packet_example record_example "''pcap.jsonl''" no_files
      "[packet_example, packet_tcp]"]
  show ?thesis by (simp add: content_no_files del: read_pcap_sequential.simps)
qed

text \<open>
  C9 as stated (the rejection carries the offending packet's timestamp and its source
  and destination addresses) fails: two calls of \<open>Packet(...)\<close> with \<open>flags_rb\<close> 1,
  whose addresses and timestamps are valid and all different, end with the very same
  exception, so the exception tells nothing of them.
\<close>

theorem flags_rb_diagnostics_counterexample:
  "validate_int decimal (kw_flags_rb (kwargs_example\<lparr>kw_flags_rb := RStr ''1''\<rparr>)) = Some 1 \<and>
   isl (Packet_new decimal (kwargs_example\<lparr>kw_flags_rb := RStr ''1''\<rparr>)) \<and>
   Packet_new decimal
     (kwargs_example\<lparr>kw_flags_rb := RStr ''1'', kw_src := RStr ''192.168.1.7'',
        kw_dst := RStr ''192.168.1.9'', kw_sniff_timestamp := RStr ''1600000000.5''\<rparr>) =
     Packet_new decimal (kwargs_example\<lparr>kw_flags_rb := RStr ''1''\<rparr>) \<and>
   kw_src kwargs_example = RStr ''10.0.0.1'' \<and> kw_dst kwargs_example = RStr ''10.0.0.2'' \<and>
   kw_sniff_timestamp kwargs_example = RStr ''1500000000.25'' \<and>
   validate_float decimal (RStr ''1500000000.25'') = Some ''1500000000.25'' \<and>
   validate_float decimal (RStr ''1600000000.5'') = Some ''1600000000.5''"
  by (simp add: example_defs)

text \<open>
  C9, amended. When the value passed for \<open>flags_rb\<close> coerces to a nonzero integer, the
  validator of the field \<open>flags_rb\<close>, which is given that integer and nothing else of the
  packet, rejects it, the field gets no value and \<open>Packet(...)\<close> raises. The exception
  carries neither the timestamp nor the addresses of the packet: with any other valid
  addresses and timestamp in their place \<open>Packet(...)\<close> raises the same exception.
\<close>

theorem flags_rb_nonzero_raises:
  assumes "validate_int V (kw_flags_rb kw) = Some n" and "n \<noteq> 0"
    and "validate_str V (kw_src kw) = Some a" and "validate_str V (kw_dst kw) = Some b"
    and "validate_float V (kw_sniff_timestamp kw) = Some t"
    and "validate_str V src' = Some a'" and "validate_str V dst' = Some b'"
    and "validate_float V ts' = Some t'"
  shows "isl (flags_rb_must_be_zero n) \<and> value_of (flags_rb_field V (kw_flags_rb kw)) = None \<and>
         (\<exists>e. Packet_new V kw = Inl e \<and>
              Packet_new V (kw\<lparr>kw_src := src', kw_dst := dst', kw_sniff_timestamp := ts'\<rparr>) = Inl e)"
proof -
  have "isl (flags_rb_must_be_zero n)"
    using assms(2) by (simp add: flags_rb_must_be_zero_def)
  moreover have "value_of (flags_rb_field V (kw_flags_rb kw)) = None"
    using flags_rb_field_nonzero [OF assms(1,2)] by (simp add: value_of_def)
  moreover have "Packet_new V kw = Inl (Uncaught TypeError)"
    using assms(1,2) by (rule Packet_new_flags_rb_nonzero)
  moreover have "Packet_new V (kw\<lparr>kw_src := src', kw_dst := dst', kw_sniff_timestamp := ts'\<rparr>) =
      Inl (Uncaught TypeError)"
    using assms(1,2)
    by (intro Packet_new_flags_rb_nonzero [where n = n]) simp_all
  ultimately show ?thesis by simp
qed

theorem flags_rb_nonzero_raises_witness:
  "validate_int decimal (kw_flags_rb (kwargs_example\<lparr>kw_flags_rb := RStr ''1''\<rparr>)) = Some 1 \<and>
   validate_str decimal (kw_src (kwargs_example\<lparr>kw_flags_rb := RStr ''1''\<rparr>)) = Some ''10.0.0.1'' \<and>
   validate_str decimal (kw_dst (kwargs_example\<lparr>kw_flags_rb := RStr ''1''\<rparr>)) = Some ''10.0.0.2'' \<and>
   validate_float decimal (kw_sniff_timestamp (kwargs_example\<lparr>kw_flags_rb := RStr ''1''\<rparr>)) =
     Some ''1500000000.25'' \<and>
   validate_str decimal (RStr ''192.168.1.7'') = Some ''192.168.1.7'' \<and>
   validate_str decimal (RStr ''192.168.1.9'') = Some ''192.168.1.9'' \<and>
   validate_float decimal (RStr ''1600000000.5'') = Some ''1600000000.5'' \<and>
   isl (flags_rb_must_be_zero 1) \<and>
   value_of (flags_rb_field decimal (kw_flags_rb (kwargs_example\<lparr>kw_flags_rb := RStr ''1''\<rparr>))) = None \<and>
   (\<exists>e. Packet_new decimal (kwargs_example\<lparr>kw_flags_rb := RStr ''1''\<rparr>) = Inl e \<and>
        Packet_new decimal
          (kwargs_example\<lparr>kw_flags_rb := RStr ''1'', kw_src := RStr ''192.168.1.7'',
             kw_dst := RStr ''192.168.1.9'', kw_sniff_timestamp := RStr ''1600000000.5''\<rparr>) = Inl e)"
proof -
  have a: "validate_int decimal (kw_flags_rb (kwargs_example\<lparr>kw_flags_rb := RStr ''1''\<rparr>)) = Some 1"
    by (simp add: validate_int_def decimal_def decimal_int_def is_decimal_def)
  have b: "(1::int) \<noteq> 0" by simp
  have c: "validate_str decimal (kw_src (kwargs_example\<lparr>kw_flags_rb := RStr ''1''\<rparr>)) = Some ''10.0.0.1''"
    "validate_str decimal (kw_dst (kwargs_example\<lparr>kw_flags_rb := RStr ''1''\<rparr>)) = Some ''10.0.0.2''"
    "validate_float decimal (kw_sniff_timestamp (kwargs_example\<lparr>kw_flags_rb := RStr ''1''\<rparr>)) =
       Some ''1500000000.25''"
    by (simp_all add: example_defs)
  have d: "validate_str decimal (RStr ''192.168.1.7'') = Some ''192.168.1.7''"
    "validate_str decimal (RStr ''192.168.1.9'') = Some ''192.168.1.9''"
    "validate_float decimal (RStr ''1600000000.5'') = Some ''1600000000.5''"
    by (simp_all add: example_defs)
  from a c d flags_rb_nonzero_raises [OF a b c d] show ?thesis by simp
qed

text \<open>
  C10 as stated (every \<open>dsfield\<close> that is not a string makes \<open>Packet(...)\<close> raise) fails:
  the bytes \<open>b"1a"\<close> are not a string, and \<open>int(v, 16)\<close> reads them, so the record is
  built with \<open>dsfield = 26\<close>.
\<close>

theorem dsfield_bytes_counterexample:
  "kw_dsfield (kwargs_example\<lparr>kw_dsfield := RBytes ''1a''\<rparr>) = RBytes ''1a'' \<and>
   Packet_new decimal (kwargs_example\<lparr>kw_dsfield := RBytes ''1a''\<rparr>) =
     Inr (record_example\<lparr>dsfield := 26\<rparr>)"
  by (simp add: example_defs)

text \<open>
  C10, amended. For every input whose \<open>dsfield\<close> is neither a string nor bytes (an
  integer that is already parsed, a boolean, \<open>None\<close>), \<open>set_dsfield_int16\<close> ends in a
  \<open>TypeError\<close> and \<open>Packet(...)\<close> raises it instead of returning an instance.
\<close>

theorem dsfield_not_text_raises:
  assumes "\<not> is_text (kw_dsfield kw)"
  shows "Packet_new V kw = Inl (Uncaught TypeError) \<and>
         set_dsfield_int16 (kw_dsfield kw) = Inl TypeError"
  using assms Packet_new_dsfield_escapes [OF dsfield_field_not_text [OF assms], of V]
  by (cases "kw_dsfield kw") (simp_all add: set_dsfield_int16_def is_text_def)

theorem dsfield_not_text_raises_witness:
  "\<not> is_text (kw_dsfield (kwargs_example\<lparr>kw_dsfield := RInt 26\<rparr>)) \<and>
   Packet_new decimal (kwargs_example\<lparr>kw_dsfield := RInt 26\<rparr>) = Inl (Uncaught TypeError) \<and>
   \<not> is_text RNone \<and> \<not> is_text (RBool True) \<and> is_text (RStr ''1a'') \<and> is_text (RBytes ''1a'')"
proof -
  have a: "\<not> is_text (kw_dsfield (kwargs_example\<lparr>kw_dsfield := RInt 26\<rparr>))"
    by (simp add: is_text_def)
  from a dsfield_not_text_raises [OF a, of decimal] show ?thesis
    by (simp add: is_text_def)
qed

end
